theory Spec2Isabelle
  imports Main "HOL-Library.Sublist"
begin

section \<open>Strings\<close>

text \<open>
  A JavaScript string is modelled as a \<^typ>\<open>string\<close>, one \<^typ>\<open>char\<close> per code unit
  below \<open>0x100\<close>. \<open>String.prototype.trim\<close> removes WhiteSpace and LineTerminator code
  points from both ends; the ones in range are TAB, LF, VT, FF, CR, SPACE and NBSP.
\<close>

definition is_whitespace :: "char \<Rightarrow> bool" where
  "is_whitespace c =
     (c = CHR 0x09 \<or> c = CHR 0x0A \<or> c = CHR 0x0B \<or> c = CHR 0x0C \<or> c = CHR 0x0D
      \<or> c = CHR 0x20 \<or> c = CHR 0xA0)"

definition trim :: "string \<Rightarrow> string" where
  "trim s = rev (dropWhile is_whitespace (rev (dropWhile is_whitespace s)))"

text \<open>\<open>a ?? b\<close>: the left operand unless it is \<open>null\<close> or \<open>undefined\<close>.\<close>

definition nullish_or :: "'a option \<Rightarrow> 'a option \<Rightarrow> 'a option" where
  "nullish_or a b = (case a of Some x \<Rightarrow> Some x | None \<Rightarrow> b)"

section \<open>Recognition events (AmbientScribe.tsx, lines 3--27)\<close>

text \<open>
  The list-like objects of the recognition engine are lists whose entries may be missing
  (\<open>None\<close> for \<open>undefined\<close>/\<open>null\<close>); \<open>length\<close> is the length of the list. Both the
  indexed read \<open>list[index]\<close> and \<open>list.item(index)\<close> read that list and give nothing
  outside \<open>0 \<le> index < length\<close>.
\<close>

record SpeechRecognitionAlternativeLike =
  transcript :: "string option"

record SpeechRecognitionResultLike =
  isFinal :: bool
  alternatives :: "SpeechRecognitionAlternativeLike option list"

type_synonym SpeechRecognitionResultListLike = "SpeechRecognitionResultLike option list"

record SpeechRecognitionEventLike =
  resultIndex :: int
  results :: SpeechRecognitionResultListLike

record SpeechRecognitionErrorEventLike =
  event_error :: string

definition at_index :: "'a option list \<Rightarrow> int \<Rightarrow> 'a option" where
  "at_index xs i = (if 0 \<le> i \<and> i < int (length xs) then xs ! nat i else None)"

definition item :: "'a option list \<Rightarrow> int \<Rightarrow> 'a option" where
  "item xs i = (if 0 \<le> i \<and> i < int (length xs) then xs ! nat i else None)"

section \<open>mapTranscriptSegments (lines 56--88)\<close>

record TranscriptSegments =
  final :: string
  interim :: string

text \<open>\<open>alternative?.transcript?.trim()\<close>\<close>

definition alternative_text :: "SpeechRecognitionAlternativeLike option \<Rightarrow> string option" where
  "alternative_text alternative =
     (case alternative of
        None \<Rightarrow> None
      | Some a \<Rightarrow> (case transcript a of None \<Rightarrow> None | Some t \<Rightarrow> Some (trim t)))"

text \<open>
  One pass through the body of the \<open>for\<close> loop (lines 69--84); each \<open>continue\<close> leaves
  the accumulators as they are.
\<close>

definition loop_body ::
  "SpeechRecognitionResultListLike \<Rightarrow> int \<Rightarrow> TranscriptSegments \<Rightarrow> TranscriptSegments" where
  "loop_body list index acc =
     (case nullish_or (at_index list index) (item list index) of
        None \<Rightarrow> acc
      | Some result \<Rightarrow>
          (case alternative_text
                  (nullish_or (at_index (alternatives result) 0) (item (alternatives result) 0)) of
             None \<Rightarrow> acc
           | Some text \<Rightarrow>
               if text = [] then acc
               else if isFinal result then
                 acc\<lparr>final := (if final acc \<noteq> [] then final acc @ '' '' @ text else text)\<rparr>
               else
                 acc\<lparr>interim := (if interim acc \<noteq> [] then interim acc @ '' '' @ text else text)\<rparr>))"

function mapTranscriptSegments_loop ::
  "SpeechRecognitionResultListLike \<Rightarrow> int \<Rightarrow> TranscriptSegments \<Rightarrow> TranscriptSegments" where
  "mapTranscriptSegments_loop list index acc =
     (if index < int (length list)
      then mapTranscriptSegments_loop list (index + 1) (loop_body list index acc)
      else acc)"
  by pat_completeness auto
termination
  by (relation "measure (\<lambda>(list, index, acc). nat (int (length list) - index))") auto

declare mapTranscriptSegments_loop.simps [simp del]

definition mapTranscriptSegments ::
  "SpeechRecognitionResultListLike \<Rightarrow> int \<Rightarrow> TranscriptSegments" where
  "mapTranscriptSegments list startIndex =
     mapTranscriptSegments_loop list startIndex \<lparr>final = [], interim = []\<rparr>"

section \<open>useSpeechRecognition (lines 90--192)\<close>

text \<open>
  The state of one hook instance: the four \<open>useState\<close> cells and whether
  \<open>recognitionRef.current\<close> holds an engine.
\<close>

record hook_state =
  recognitionRef :: bool
  isListening :: bool
  error :: "string option"
  interimTranscript :: string
  finalTranscript :: string

definition initial_state :: hook_state where
  "initial_state =
     \<lparr>recognitionRef = False, isListening = False, error = None,
      interimTranscript = [], finalTranscript = []\<rparr>"

text \<open>
  The mount effect (lines 97--131); \<open>supported\<close> says whether
  \<open>getRecognitionConstructor\<close> found a constructor.
\<close>

definition mount :: "bool \<Rightarrow> hook_state \<Rightarrow> hook_state" where
  "mount supported s =
     (if \<not> supported
      then s\<lparr>error := Some ''Speech recognition is not supported in this browser.''\<rparr>
      else s\<lparr>recognitionRef := True\<rparr>)"

text \<open>\<open>recognition.onresult\<close> (lines 110--118)\<close>

definition onresult :: "SpeechRecognitionEventLike \<Rightarrow> hook_state \<Rightarrow> hook_state" where
  "onresult event s =
     (let segments = mapTranscriptSegments (results event) (resultIndex event);
          s1 = s\<lparr>interimTranscript := interim segments\<rparr>
      in if final segments \<noteq> []
         then s1\<lparr>finalTranscript :=
                   (if finalTranscript s1 \<noteq> []
                    then trim (finalTranscript s1 @ '' '' @ final segments)
                    else final segments)\<rparr>
         else s1)"

text \<open>\<open>recognition.onerror\<close> (lines 120--124)\<close>

definition onerror :: "SpeechRecognitionErrorEventLike \<Rightarrow> hook_state \<Rightarrow> hook_state" where
  "onerror event s =
     (let message = (if event_error event \<noteq> []
                     then ''Speech recognition error: '' @ event_error event
                     else ''Speech recognition error occurred.'')
      in s\<lparr>error := Some message, isListening := False\<rparr>)"

text \<open>\<open>recognition.onend\<close> (lines 126--129)\<close>

definition onend :: "hook_state \<Rightarrow> hook_state" where
  "onend s = s\<lparr>isListening := False, interimTranscript := []\<rparr>"

text \<open>
  \<open>startListening\<close> (lines 151--167). What \<open>recognition.start()\<close> does is the engine's
  business: it returns, throws an \<open>Error\<close> with a message, or throws something else.
\<close>

datatype start_outcome = Started | StartThrewError string | StartThrewOther

definition startListening :: "start_outcome \<Rightarrow> hook_state \<Rightarrow> hook_state" where
  "startListening outcome s =
     (if \<not> recognitionRef s
      then s\<lparr>error := Some ''Speech recognition is not available.''\<rparr>
      else
        (let s1 = s\<lparr>error := None\<rparr>
         in case outcome of
              Started \<Rightarrow> s1\<lparr>isListening := True\<rparr>
            | StartThrewError m \<Rightarrow> s1\<lparr>error := Some m\<rparr>
            | StartThrewOther \<Rightarrow> s1\<lparr>error := Some ''Unable to start speech recognition.''\<rparr>))"

text \<open>
  \<open>stopListening\<close> (lines 169--182). Whatever \<open>recognition.stop()\<close> throws is caught
  and dropped, so its outcome does not reach the state.
\<close>

definition stopListening :: "hook_state \<Rightarrow> hook_state" where
  "stopListening s =
     (if \<not> recognitionRef s then s
      else s\<lparr>isListening := False, interimTranscript := []\<rparr>)"

text \<open>
  A run of the hook. The three handlers are properties of the engine object built by
  the mount effect, so an engine event reaches the state only when that object exists.
\<close>

datatype hook_op =
    Result SpeechRecognitionEventLike
  | EngineError SpeechRecognitionErrorEventLike
  | End
  | Stop
  | Start start_outcome

fun step :: "hook_state \<Rightarrow> hook_op \<Rightarrow> hook_state" where
  "step s (Result event) = (if recognitionRef s then onresult event s else s)"
| "step s (EngineError event) = (if recognitionRef s then onerror event s else s)"
| "step s End = (if recognitionRef s then onend s else s)"
| "step s Stop = stopListening s"
| "step s (Start outcome) = startListening outcome s"

definition run :: "hook_state \<Rightarrow> hook_op list \<Rightarrow> hook_state" where
  "run s ops = foldl step s ops"

section \<open>The accumulator in the words of the specification\<close>

text \<open>
  \<open>Array.prototype.join(' ')\<close> on strings: the texts in order, one space between two
  neighbours. The specification's "space-joined".
\<close>

fun space_joined :: "string list \<Rightarrow> string" where
  "space_joined [] = []"
| "space_joined [x] = x"
| "space_joined (x # y # ys) = x @ '' '' @ space_joined (y # ys)"

text \<open>
  The trimmed text of the first alternative of a result; empty when the result, its first
  alternative or the alternative's text is missing.
\<close>

definition result_text :: "SpeechRecognitionResultLike option \<Rightarrow> string" where
  "result_text r =
     (case r of
        None \<Rightarrow> []
      | Some result \<Rightarrow>
          (case alternatives result of
             Some a # _ \<Rightarrow> (case transcript a of None \<Rightarrow> [] | Some t \<Rightarrow> trim t)
           | _ \<Rightarrow> []))"

definition result_is_final :: "SpeechRecognitionResultLike option \<Rightarrow> bool" where
  "result_is_final r = (case r of None \<Rightarrow> False | Some result \<Rightarrow> isFinal result)"

text \<open>The non-empty texts of the final, and of the non-final, results from \<open>startIndex\<close> on.\<close>

definition final_texts :: "SpeechRecognitionResultListLike \<Rightarrow> int \<Rightarrow> string list" where
  "final_texts list startIndex =
     filter (\<lambda>t. t \<noteq> []) (map result_text (filter result_is_final (drop (nat startIndex) list)))"

definition interim_texts :: "SpeechRecognitionResultListLike \<Rightarrow> int \<Rightarrow> string list" where
  "interim_texts list startIndex =
     filter (\<lambda>t. t \<noteq> [])
       (map result_text (filter (\<lambda>r. \<not> result_is_final r) (drop (nat startIndex) list)))"

text \<open>The loop of \<open>mapTranscriptSegments\<close> as a fold over the entries in range.\<close>

definition append_segment :: "string \<Rightarrow> string \<Rightarrow> string" where
  "append_segment acc text = (if acc \<noteq> [] then acc @ '' '' @ text else text)"

definition add_result ::
  "TranscriptSegments \<Rightarrow> SpeechRecognitionResultLike option \<Rightarrow> TranscriptSegments" where
  "add_result acc r =
     (if result_text r = [] then acc
      else if result_is_final r then acc\<lparr>final := append_segment (final acc) (result_text r)\<rparr>
      else acc\<lparr>interim := append_segment (interim acc) (result_text r)\<rparr>)"

text \<open>No whitespace at either end.\<close>

definition trimmed :: "string \<Rightarrow> bool" where
  "trimmed s = (s = [] \<or> (\<not> is_whitespace (hd s) \<and> \<not> is_whitespace (last s)))"

text \<open>Segments as the accumulator appends them: non-empty and trimmed.\<close>

definition segments_ok :: "string list \<Rightarrow> bool" where
  "segments_ok ts = (\<forall>t \<in> set ts. t \<noteq> [] \<and> trim t = t)"

text \<open>
  The texts an operation appends to the final transcript, and the texts that make up the
  interim transcript after it, for a hook that has an engine.
\<close>

fun appended_texts :: "hook_op \<Rightarrow> string list" where
  "appended_texts (Result event) = final_texts (results event) (resultIndex event)"
| "appended_texts _ = []"

fun pending_texts :: "string list \<Rightarrow> hook_op \<Rightarrow> string list" where
  "pending_texts ts (Result event) = interim_texts (results event) (resultIndex event)"
| "pending_texts ts End = []"
| "pending_texts ts Stop = []"
| "pending_texts ts _ = ts"

text \<open>
  An event that finalizes exactly one new result: \<open>resultIndex\<close> is the index of the
  last entry, and that entry is final. Its text is the trimmed text of that entry.
\<close>

definition finalizes_one :: "SpeechRecognitionEventLike \<Rightarrow> bool" where
  "finalizes_one event =
     (0 \<le> resultIndex event
      \<and> int (length (results event)) = resultIndex event + 1
      \<and> result_is_final (results event ! nat (resultIndex event)))"

definition finalized_text :: "SpeechRecognitionEventLike \<Rightarrow> string" where
  "finalized_text event = result_text (results event ! nat (resultIndex event))"

text \<open>
  The event shapes with something missing: no result at the index, a result with no first
  alternative, an alternative without text.
\<close>

definition malformed :: "SpeechRecognitionResultLike option \<Rightarrow> bool" where
  "malformed r =
     (case r of
        None \<Rightarrow> True
      | Some result \<Rightarrow>
          (case alternatives result of
             [] \<Rightarrow> True
           | None # _ \<Rightarrow> True
           | Some a # _ \<Rightarrow> transcript a = None))"

text \<open>A well-formed result with one alternative, for examples.\<close>

definition spoken :: "bool \<Rightarrow> string \<Rightarrow> SpeechRecognitionResultLike option" where
  "spoken fin t = Some \<lparr>isFinal = fin, alternatives = [Some \<lparr>transcript = Some t\<rparr>]\<rparr>"

text \<open>
  The state a hook reaches from its first render, through the mount effect and a sequence
  of operations.
\<close>

definition session :: "bool \<Rightarrow> hook_op list \<Rightarrow> hook_state" where
  "session supported ops = run (mount supported initial_state) ops"

text \<open>No two space characters next to each other.\<close>

fun double_space_free :: "string \<Rightarrow> bool" where
  "double_space_free [] = True"
| "double_space_free [a] = True"
| "double_space_free (a # b # cs) =
     (\<not> (a = CHR '' '' \<and> b = CHR '' '') \<and> double_space_free (b # cs))"

section \<open>extractClinicalData (the Cohere client module, src/unnamed/part_002)\<close>

text \<open>
  A thrown \<open>Error\<close> with its message. The promise an \<open>async\<close> function returns is
  rejected with it (\<open>Inl\<close>) or fulfilled with a value (\<open>Inr\<close>).
\<close>

datatype js_error = Error string

record ClinicalData =
  symptoms :: "string list"
  history :: "string list"
  assessment :: "string list"
  medications :: "string list"
  plan :: "string list"

record CohereContentPart =
  part_type :: "string option"
  part_text :: "string option"

record CohereMessage =
  message_content :: "CohereContentPart option list option"

record ChatHistoryEntry =
  role :: "string option"
  entry_message :: "string option"

record CohereChatResponse =
  message :: "CohereMessage option"
  response_text :: "string option"
  chat_history :: "ChatHistoryEntry list option"

record chat_payload =
  model :: string
  preamble :: string
  payload_message :: string

text \<open>
  What the function reaches outside itself: the environment's key, the client's \<open>chat\<close>
  call (it resolves with a response, or rejects with an \<open>Error\<close> or with some other
  value), \<open>JSON.parse\<close> (\<open>None\<close> when it throws) and, for the values \<open>'v\<close> it produces,
  reading a property (a \<open>TypeError\<close> on \<open>null\<close>, \<open>None\<close> for \<open>undefined\<close>), truthiness,
  \<open>Array.isArray\<close> with the items, and the string a template literal makes of a value.
\<close>

datatype chat_result = Resolved CohereChatResponse | RejectedWithError js_error | RejectedWithOther

record 'v platform =
  cohereKeyFromEnv :: "string option"
  chat :: "chat_payload \<Rightarrow> chat_result"
  json_parse :: "string \<Rightarrow> 'v option"
  get_property :: "'v \<Rightarrow> string \<Rightarrow> js_error + 'v option"
  truthy :: "'v \<Rightarrow> bool"
  array_items :: "'v \<Rightarrow> 'v list option"
  template_string :: "'v \<Rightarrow> string"

text \<open>\<open>extractText\<close> (lines 27--34)\<close>

definition extractText :: "CohereContentPart option list option \<Rightarrow> string" where
  "extractText content =
     (case content of
        None \<Rightarrow> []
      | Some parts \<Rightarrow>
          trim (space_joined (filter (\<lambda>t. t \<noteq> [])
            (map (\<lambda>part. case part of
                             None \<Rightarrow> []
                           | Some p \<Rightarrow> (case part_text p of None \<Rightarrow> [] | Some t \<Rightarrow> trim t))
                 parts))))"

text \<open>
  \<open>stripCodeFence\<close> (lines 36--43). The first regular expression, at the start of a text
  that begins with three backticks, takes the backticks, the ASCII letters after them and
  the whitespace after those. The second takes the leftmost three backticks that are
  followed by whitespace up to the end of the text or up to a line terminator, with as
  much of that whitespace as it can.
\<close>

definition backticks :: string where
  "backticks = [CHR 0x60, CHR 0x60, CHR 0x60]"

definition is_ascii_letter :: "char \<Rightarrow> bool" where
  "is_ascii_letter c =
     ((65 \<le> (of_char c :: nat) \<and> (of_char c :: nat) \<le> 90)
      \<or> (97 \<le> (of_char c :: nat) \<and> (of_char c :: nat) \<le> 122))"

definition is_line_terminator :: "char \<Rightarrow> bool" where
  "is_line_terminator c = (c = CHR 0x0A \<or> c = CHR 0x0D)"

definition strip_opening_fence :: "string \<Rightarrow> string" where
  "strip_opening_fence fenced =
     dropWhile is_whitespace (dropWhile is_ascii_letter (drop 3 fenced))"

definition closing_fence_length :: "string \<Rightarrow> nat option" where
  "closing_fence_length rest =
     (let run = takeWhile is_whitespace rest
      in if length run = length rest then Some (length run)
         else find (\<lambda>k. is_line_terminator (run ! k)) (rev [0..<length run]))"

fun strip_closing_fence :: "string \<Rightarrow> string" where
  "strip_closing_fence [] = []"
| "strip_closing_fence (c # cs) =
     (if take 3 (c # cs) = backticks
      then (case closing_fence_length (drop 3 (c # cs)) of
              Some k \<Rightarrow> drop (3 + k) (c # cs)
            | None \<Rightarrow> c # strip_closing_fence cs)
      else c # strip_closing_fence cs)"

definition stripCodeFence :: "string \<Rightarrow> string" where
  "stripCodeFence text =
     (let fenced = trim text
      in if take 3 fenced = backticks
         then trim (strip_closing_fence (strip_opening_fence fenced))
         else fenced)"

text \<open>\<open>COHERE_API_KEY\<close> (lines 45--46)\<close>

definition COHERE_API_KEY :: "'v platform \<Rightarrow> string" where
  "COHERE_API_KEY p = (case cohereKeyFromEnv p of Some k \<Rightarrow> k | None \<Rightarrow> [])"

text \<open>\<open>ensureStringArray\<close> (lines 49--53); \<open>None\<close> is \<open>undefined\<close>.\<close>

definition ensureStringArray :: "'v platform \<Rightarrow> 'v option \<Rightarrow> string list" where
  "ensureStringArray p value =
     (case value of
        None \<Rightarrow> []
      | Some v \<Rightarrow>
          if \<not> truthy p v then []
          else (case array_items p v of
                  Some items \<Rightarrow>
                    filter (\<lambda>t. t \<noteq> []) (map (\<lambda>item. trim (template_string p item)) items)
                | None \<Rightarrow> filter (\<lambda>t. t \<noteq> []) [trim (template_string p v)]))"

text \<open>
  \<open>String.prototype.toLowerCase\<close> on code units below \<open>0x100\<close>: the letters \<open>A\<close>--\<open>Z\<close>
  and the capital letters of Latin-1.
\<close>

definition lower_char :: "char \<Rightarrow> char" where
  "lower_char c =
     (let n = (of_char c :: nat)
      in if (65 \<le> n \<and> n \<le> 90) \<or> (192 \<le> n \<and> n \<le> 214) \<or> (216 \<le> n \<and> n \<le> 222)
         then char_of (n + 32) else c)"

definition toLowerCase :: "string \<Rightarrow> string" where
  "toLowerCase s = map lower_char s"

text \<open>The text of the response (lines 89--102).\<close>

definition lastBot :: "ChatHistoryEntry list \<Rightarrow> ChatHistoryEntry option" where
  "lastBot entries =
     find (\<lambda>entry. case role entry of None \<Rightarrow> False | Some r \<Rightarrow> toLowerCase r = ''chatbot'')
       (rev entries)"

definition response_raw_text :: "CohereChatResponse \<Rightarrow> string" where
  "response_raw_text data =
     (let rawText1 = extractText (case message data of None \<Rightarrow> None | Some m \<Rightarrow> message_content m);
          rawText2 =
            (if rawText1 = []
             then (case response_text data of Some t \<Rightarrow> trim t | None \<Rightarrow> rawText1)
             else rawText1);
          rawText3 =
            (if rawText2 = []
             then (case chat_history data of
                     None \<Rightarrow> rawText2
                   | Some entries \<Rightarrow>
                       (case lastBot entries of
                          None \<Rightarrow> rawText2
                        | Some entry \<Rightarrow>
                            (case entry_message entry of
                               None \<Rightarrow> rawText2
                             | Some m \<Rightarrow> if m \<noteq> [] then trim m else rawText2)))
             else rawText2)
      in stripCodeFence rawText3)"

text \<open>Parsing the text and building the result (lines 104--123).\<close>

definition read_field :: "'v platform \<Rightarrow> 'v \<Rightarrow> string \<Rightarrow> js_error + string list" where
  "read_field p parsed name =
     (case get_property p parsed name of
        Inl e \<Rightarrow> Inl e
      | Inr value \<Rightarrow> Inr (ensureStringArray p value))"

definition decode :: "'v platform \<Rightarrow> string \<Rightarrow> js_error + ClinicalData" where
  "decode p rawText =
     (if rawText = [] then Inl (Error ''Cohere API returned empty content'')
      else
        (case json_parse p rawText of
           None \<Rightarrow> Inl (Error ''Cohere response was not valid JSON'')
         | Some parsed \<Rightarrow>
             (case read_field p parsed ''symptoms'' of Inl e \<Rightarrow> Inl e | Inr sy \<Rightarrow>
             (case read_field p parsed ''history'' of Inl e \<Rightarrow> Inl e | Inr hi \<Rightarrow>
             (case read_field p parsed ''assessment'' of Inl e \<Rightarrow> Inl e | Inr asm \<Rightarrow>
             (case read_field p parsed ''medications'' of Inl e \<Rightarrow> Inl e | Inr me \<Rightarrow>
             (case read_field p parsed ''plan'' of Inl e \<Rightarrow> Inl e | Inr pl \<Rightarrow>
                Inr \<lparr>symptoms = sy, history = hi, assessment = asm, medications = me,
                     plan = pl\<rparr>)))))))"

definition systemPrompt :: string where
  "systemPrompt =
     ''You are a clinical NLP engine. Convert the given transcript into structured clinical data. ''
     @ ''Extract symptoms, medical history, assessment, medications, and plan. Ignore non-medical conversation. ''
     @ ''Return ONLY valid JSON with this structure: { '' @ [CHR 0x22] @ ''symptoms'' @ [CHR 0x22]
     @ '': [], '' @ [CHR 0x22] @ ''history'' @ [CHR 0x22] @ '': [], '' @ [CHR 0x22] @ ''assessment''
     @ [CHR 0x22] @ '': [], '' @ [CHR 0x22] @ ''medications'' @ [CHR 0x22] @ '': [], ''
     @ [CHR 0x22] @ ''plan'' @ [CHR 0x22] @ '': [] }''"

text \<open>
  \<open>extractClinicalData\<close> (lines 55--131): the outcome of the promise and the payloads
  sent to the chat API, in order; \<open>input\<close> is the \<open>transcript\<close> argument. The \<open>console.error\<close> lines write to the console only.
\<close>

definition extractClinicalData ::
  "'v platform \<Rightarrow> string \<Rightarrow> (js_error + ClinicalData) \<times> chat_payload list" where
  "extractClinicalData p input =
     (if input = [] \<or> trim input = []
      then (Inr \<lparr>symptoms = [], history = [], assessment = [], medications = [], plan = []\<rparr>, [])
      else if COHERE_API_KEY p = []
      then (Inl (Error ''Missing Cohere API key (set COHERE_API_KEY)''), [])
      else
        (let trimmedTranscript = trim input
         in if trimmedTranscript = []
            then (Inl (Error ''Transcript is empty; cannot extract clinical data.''), [])
            else
              (let payload = \<lparr>model = ''command-a-03-2025'', preamble = systemPrompt,
                              payload_message = trimmedTranscript\<rparr>
               in (case chat p payload of
                     Resolved data \<Rightarrow> decode p (response_raw_text data)
                   | RejectedWithError e \<Rightarrow> Inl e
                   | RejectedWithOther \<Rightarrow>
                       Inl (Error ''Unexpected error during extractClinicalData''),
                   [payload]))))"

section \<open>The loop as a fold, trimming and joining\<close>

lemma first_alternative:
  "nullish_or (at_index xs 0) (item xs 0) = (case xs of [] \<Rightarrow> None | x # _ \<Rightarrow> x)"
  by (cases xs) (auto simp: nullish_or_def at_index_def item_def split: option.splits)

lemma loop_body_in_range:
  assumes "0 \<le> i" "i < int (length list)"
  shows "loop_body list i acc = add_result acc (list ! nat i)"
  using assms
  by (auto simp: loop_body_def add_result_def result_text_def result_is_final_def
      append_segment_def first_alternative nullish_or_def at_index_def item_def alternative_text_def
      split: option.splits list.splits)

lemma loop_body_negative: "i < 0 \<Longrightarrow> loop_body list i acc = acc"
  by (simp add: loop_body_def nullish_or_def at_index_def item_def)

lemma loop_as_foldl:
  "mapTranscriptSegments_loop list i acc = foldl add_result acc (drop (nat i) list)"
proof (induction list i acc rule: mapTranscriptSegments_loop.induct)
  case (1 list index acc)
  show ?case
  proof (cases "index < int (length list)")
    case False
    then show ?thesis by (subst mapTranscriptSegments_loop.simps) simp
  next
    case True
    note IH = 1[OF True]
    have unfold: "mapTranscriptSegments_loop list index acc =
        mapTranscriptSegments_loop list (index + 1) (loop_body list index acc)"
      using True by (subst mapTranscriptSegments_loop.simps) simp
    show ?thesis
    proof (cases "index < 0")
      case True
      then have "nat (index + 1) = nat index" by simp
      with IH True unfold show ?thesis
        by (simp add: loop_body_negative)
    next
      case False
      then have n: "nat (index + 1) = Suc (nat index)" "nat index < length list"
        using True by auto
      have "drop (nat index) list = list ! nat index # drop (Suc (nat index)) list"
        using n(2) by (simp add: Cons_nth_drop_Suc)
      with IH True False n unfold show ?thesis
        by (simp add: loop_body_in_range)
    qed
  qed
qed

lemma foldl_append_segment:
  "\<forall>t \<in> set ts. t \<noteq> [] \<Longrightarrow>
   foldl append_segment acc ts = (if acc = [] then space_joined ts else space_joined (acc # ts))"
proof (induction ts arbitrary: acc)
  case Nil
  then show ?case by simp
next
  case (Cons t ts)
  then show ?case
    by (cases ts) (auto simp: append_segment_def)
qed

lemma foldl_add_result_final:
  "final (foldl add_result acc rs) =
     foldl append_segment (final acc) (filter (\<lambda>t. t \<noteq> []) (map result_text (filter result_is_final rs)))"
  by (induction rs arbitrary: acc) (auto simp: add_result_def)

lemma foldl_add_result_interim:
  "interim (foldl add_result acc rs) =
     foldl append_segment (interim acc)
       (filter (\<lambda>t. t \<noteq> []) (map result_text (filter (\<lambda>r. \<not> result_is_final r) rs)))"
  by (induction rs arbitrary: acc) (auto simp: add_result_def)

lemma mapTranscriptSegments_final:
  "final (mapTranscriptSegments list i) = space_joined (final_texts list i)"
  by (simp add: mapTranscriptSegments_def loop_as_foldl foldl_add_result_final
      foldl_append_segment final_texts_def)

lemma mapTranscriptSegments_interim:
  "interim (mapTranscriptSegments list i) = space_joined (interim_texts list i)"
  by (simp add: mapTranscriptSegments_def loop_as_foldl foldl_add_result_interim
      foldl_append_segment interim_texts_def)

lemma dropWhile_hd: "dropWhile P xs \<noteq> [] \<Longrightarrow> \<not> P (hd (dropWhile P xs))"
  by (simp add: hd_dropWhile)

lemma trimmed_trim_id: "trimmed s \<Longrightarrow> trim s = s"
proof (cases "s = []")
  case True
  then show ?thesis by (simp add: trim_def)
next
  case False
  assume t: "trimmed s"
  with False have h: "\<not> is_whitespace (hd s)" and l: "\<not> is_whitespace (last s)"
    by (auto simp: trimmed_def)
  from False h have d1: "dropWhile is_whitespace s = s"
    by (cases s) auto
  from False l have "\<not> is_whitespace (hd (rev s))"
    by (simp add: hd_rev)
  with False have d2: "dropWhile is_whitespace (rev s) = rev s"
    by (cases "rev s") auto
  show ?thesis by (simp add: trim_def d1 d2)
qed

lemma trimmed_trim: "trimmed (trim s)"
proof (cases "trim s = []")
  case True
  then show ?thesis by (simp add: trimmed_def)
next
  case False
  let ?d = "dropWhile is_whitespace s"
  let ?e = "dropWhile is_whitespace (rev ?d)"
  from False have e: "?e \<noteq> []" by (simp add: trim_def)
  then have d: "?d \<noteq> []" by (cases "?d") auto
  have l: "\<not> is_whitespace (last (trim s))"
    using e by (simp add: trim_def last_rev hd_dropWhile)
  have "?e = rev (trim s)" by (simp add: trim_def)
  obtain k where k: "?e = drop k (rev ?d)" 
    by (metis dropWhile_eq_drop)
  have "hd (trim s) = last ?e" using e by (simp add: trim_def hd_rev)
  also have "\<dots> = last (rev ?d)" using e k by (metis last_drop drop_eq_Nil not_le)
  also have "\<dots> = hd ?d" using d by (simp add: last_rev)
  finally have "\<not> is_whitespace (hd (trim s))" using d by (simp add: hd_dropWhile)
  with l show ?thesis by (simp add: trimmed_def)
qed

lemma trim_fixed_iff: "trim s = s \<longleftrightarrow> trimmed s"
  by (metis trimmed_trim trimmed_trim_id)

lemma trim_idem: "trim (trim s) = trim s"
  by (simp add: trimmed_trim trimmed_trim_id)

lemma is_whitespace_space [simp]: "is_whitespace (CHR '' '')"
  by (simp add: is_whitespace_def)

lemma trimmed_join2:
  "a \<noteq> [] \<Longrightarrow> b \<noteq> [] \<Longrightarrow> trimmed a \<Longrightarrow> trimmed b \<Longrightarrow> trimmed (a @ '' '' @ b)"
  by (simp add: trimmed_def)

lemma space_joined_Nil_iff:
  "\<forall>t \<in> set ts. t \<noteq> [] \<Longrightarrow> space_joined ts = [] \<longleftrightarrow> ts = []"
  by (induction ts rule: space_joined.induct) auto

lemma space_joined_append:
  "xs \<noteq> [] \<Longrightarrow> ys \<noteq> [] \<Longrightarrow> space_joined (xs @ ys) = space_joined xs @ '' '' @ space_joined ys"
proof (induction xs rule: space_joined.induct)
  case 1 then show ?case by simp
next
  case (2 x) then show ?case by (cases ys) auto
next
  case (3 x y zs) then show ?case by simp
qed

lemma trimmed_space_joined:
  "\<forall>t \<in> set ts. t \<noteq> [] \<and> trimmed t \<Longrightarrow> trimmed (space_joined ts)"
proof (induction ts rule: space_joined.induct)
  case 1 then show ?case by (simp add: trimmed_def)
next
  case (2 x) then show ?case by simp
next
  case (3 x y zs)
  then have "trimmed (space_joined (y # zs))" "space_joined (y # zs) \<noteq> []"
    by (auto simp: space_joined_Nil_iff)
  with 3 have "trimmed (x @ '' '' @ space_joined (y # zs))"
    by (intro trimmed_join2) auto
  then show ?case by simp
qed

lemma trimmed_Nil: "trimmed []"
  by (simp add: trimmed_def)

lemma result_text_trimmed: "trimmed (result_text r)"
  by (simp add: result_text_def trimmed_trim trimmed_Nil split: option.splits list.splits)

section \<open>Runs of the hook\<close>

lemma segments_ok_Nil [simp]: "segments_ok []"
  by (simp add: segments_ok_def)

lemma segments_ok_append [simp]: "segments_ok (xs @ ys) \<longleftrightarrow> segments_ok xs \<and> segments_ok ys"
  by (auto simp: segments_ok_def)

lemma segments_ok_filter_text:
  "segments_ok (filter (\<lambda>t. t \<noteq> []) (map result_text rs))"
  by (auto simp: segments_ok_def trim_fixed_iff result_text_trimmed)

lemma segments_ok_final_texts [simp]: "segments_ok (final_texts list i)"
  unfolding final_texts_def by (rule segments_ok_filter_text)

lemma segments_ok_interim_texts [simp]: "segments_ok (interim_texts list i)"
  unfolding interim_texts_def by (rule segments_ok_filter_text)

lemma segments_ok_joined_trim: "segments_ok ts \<Longrightarrow> trim (space_joined ts) = space_joined ts"
  by (simp add: segments_ok_def trim_fixed_iff trimmed_space_joined)

lemma segments_ok_joined_Nil: "segments_ok ts \<Longrightarrow> space_joined ts = [] \<longleftrightarrow> ts = []"
  by (simp add: segments_ok_def space_joined_Nil_iff)

lemma onresult_frame:
  "recognitionRef (onresult event s) = recognitionRef s"
  "isListening (onresult event s) = isListening s"
  "error (onresult event s) = error s"
  by (simp_all add: onresult_def Let_def)

lemma onresult_interim:
  "interimTranscript (onresult event s) = space_joined (interim_texts (results event) (resultIndex event))"
  by (simp add: onresult_def Let_def mapTranscriptSegments_interim)

lemma onresult_final:
  "finalTranscript (onresult event s) =
     (if space_joined (final_texts (results event) (resultIndex event)) = [] then finalTranscript s
      else if finalTranscript s \<noteq> []
        then trim (finalTranscript s @ '' '' @ space_joined (final_texts (results event) (resultIndex event)))
        else space_joined (final_texts (results event) (resultIndex event)))"
  by (simp add: onresult_def Let_def mapTranscriptSegments_final)

lemma onresult_final_joined:
  assumes "finalTranscript s = space_joined A" "segments_ok A"
  shows "finalTranscript (onresult event s) =
           space_joined (A @ final_texts (results event) (resultIndex event))"
proof -
  let ?F = "final_texts (results event) (resultIndex event)"
  have ok: "segments_ok ?F" by simp
  show ?thesis
  proof (cases "?F = []")
    case True
    then show ?thesis using assms by (simp add: onresult_final)
  next
    case False
    then have f: "space_joined ?F \<noteq> []" using ok by (simp add: segments_ok_joined_Nil)
    show ?thesis
    proof (cases "A = []")
      case True
      then show ?thesis using assms f by (simp add: onresult_final)
    next
      case False
      then have a: "space_joined A \<noteq> []" using assms by (simp add: segments_ok_joined_Nil)
      have j: "space_joined (A @ ?F) = space_joined A @ '' '' @ space_joined ?F"
        using False \<open>?F \<noteq> []\<close> by (rule space_joined_append)
      have "trim (space_joined (A @ ?F)) = space_joined (A @ ?F)"
        using assms ok by (intro segments_ok_joined_trim) simp
      then show ?thesis using assms a f j by (simp add: onresult_final)
    qed
  qed
qed

lemma step_recognitionRef: "recognitionRef (step s op) = recognitionRef s"
  by (cases op)
     (auto simp: onresult_frame onerror_def onend_def stopListening_def startListening_def Let_def
        split: start_outcome.splits)

lemma run_recognitionRef: "recognitionRef (run s ops) = recognitionRef s"
  unfolding run_def by (induction ops arbitrary: s) (simp_all add: step_recognitionRef)

lemma step_final_joined:
  assumes "recognitionRef s" "finalTranscript s = space_joined A" "segments_ok A"
  shows "finalTranscript (step s op) = space_joined (A @ appended_texts op)"
proof (cases op)
  case (Result event)
  then show ?thesis using assms by (simp add: onresult_final_joined)
qed (use assms in \<open>auto simp: onerror_def onend_def stopListening_def startListening_def Let_def
        split: start_outcome.splits\<close>)

lemma run_final_joined:
  "recognitionRef s \<Longrightarrow> finalTranscript s = space_joined A \<Longrightarrow> segments_ok A \<Longrightarrow>
   finalTranscript (run s ops) = space_joined (A @ concat (map appended_texts ops))
   \<and> segments_ok (A @ concat (map appended_texts ops))"
proof (induction ops arbitrary: s A)
  case Nil
  then show ?case by (simp add: run_def)
next
  case (Cons op ops)
  have ok: "segments_ok (A @ appended_texts op)"
    using Cons.prems by (cases op) simp_all
  have "finalTranscript (run (step s op) ops) =
          space_joined ((A @ appended_texts op) @ concat (map appended_texts ops))
        \<and> segments_ok ((A @ appended_texts op) @ concat (map appended_texts ops))"
    using Cons.prems ok
    by (intro Cons.IH) (simp_all add: step_recognitionRef step_final_joined)
  then show ?case by (simp add: run_def)
qed

lemma step_no_engine:
  "\<not> recognitionRef s \<Longrightarrow>
   finalTranscript (step s op) = finalTranscript s
   \<and> interimTranscript (step s op) = interimTranscript s
   \<and> isListening (step s op) = isListening s"
  by (cases op) (auto simp: stopListening_def startListening_def)

lemma run_no_engine:
  "\<not> recognitionRef s \<Longrightarrow>
   finalTranscript (run s ops) = finalTranscript s
   \<and> interimTranscript (run s ops) = interimTranscript s
   \<and> isListening (run s ops) = isListening s"
  unfolding run_def
  by (induction ops arbitrary: s) (simp_all add: step_no_engine step_recognitionRef)

lemma step_interim_joined:
  assumes "recognitionRef s" "interimTranscript s = space_joined P"
  shows "interimTranscript (step s op) = space_joined (pending_texts P op)"
  using assms
  by (cases op)
     (auto simp: onresult_interim onerror_def onend_def stopListening_def startListening_def Let_def
        split: start_outcome.splits)

lemma pending_texts_ok: "segments_ok P \<Longrightarrow> segments_ok (pending_texts P op)"
  by (cases op) simp_all

lemma run_interim_joined:
  "recognitionRef s \<Longrightarrow> interimTranscript s = space_joined P \<Longrightarrow> segments_ok P \<Longrightarrow>
   interimTranscript (run s ops) = space_joined (foldl pending_texts P ops)
   \<and> segments_ok (foldl pending_texts P ops)"
proof (induction ops arbitrary: s P)
  case Nil
  then show ?case by (simp add: run_def)
next
  case (Cons op ops)
  have "interimTranscript (run (step s op) ops) = space_joined (foldl pending_texts (pending_texts P op) ops)
        \<and> segments_ok (foldl pending_texts (pending_texts P op) ops)"
    using Cons.prems
    by (intro Cons.IH) (simp_all add: step_recognitionRef step_interim_joined pending_texts_ok)
  then show ?case by (simp add: run_def)
qed

lemma prefix_space_joined: "prefix (space_joined xs) (space_joined (xs @ ys))"
proof (cases "xs = [] \<or> ys = []")
  case True
  then show ?thesis by auto
next
  case False
  then show ?thesis by (simp add: space_joined_append)
qed

lemma foldl_add_result_filter:
  "foldl add_result acc (filter (\<lambda>r. result_text r \<noteq> []) rs) = foldl add_result acc rs"
  by (induction rs arbitrary: acc) (simp_all add: add_result_def)

lemma malformed_text: "malformed r \<Longrightarrow> result_text r = []"
  by (auto simp: malformed_def result_text_def split: option.splits list.splits)

lemma foldl_add_result_wellformed:
  "foldl add_result acc (filter (\<lambda>r. \<not> malformed r) rs) = foldl add_result acc rs"
  by (induction rs arbitrary: acc) (auto simp: add_result_def malformed_text)

lemma mapTranscriptSegments_fold:
  "mapTranscriptSegments list i = foldl add_result \<lparr>final = [], interim = []\<rparr> (drop (nat i) list)"
  by (simp add: mapTranscriptSegments_def loop_as_foldl)

lemma final_texts_finalizes_one:
  "finalizes_one event \<Longrightarrow>
   final_texts (results event) (resultIndex event) = filter (\<lambda>t. t \<noteq> []) [finalized_text event]"
proof -
  assume f: "finalizes_one event"
  let ?n = "nat (resultIndex event)"
  from f have len: "length (results event) = Suc ?n"
    by (simp add: finalizes_one_def) linarith
  then have "drop ?n (results event) = [results event ! ?n]"
    by (metis Cons_nth_drop_Suc drop_all lessI order_refl)
  with f show ?thesis
    by (simp add: final_texts_def finalized_text_def finalizes_one_def)
qed

lemma fold_onresult_final_joined:
  "finalTranscript s = space_joined A \<Longrightarrow> segments_ok A \<Longrightarrow>
   finalTranscript (foldl (\<lambda>s event. onresult event s) s events) =
     space_joined (A @ concat (map (\<lambda>event. final_texts (results event) (resultIndex event)) events))"
proof (induction events arbitrary: s A)
  case Nil
  then show ?case by simp
next
  case (Cons e es)
  have "finalTranscript (foldl (\<lambda>s event. onresult event s) (onresult e s) es) =
     space_joined ((A @ final_texts (results e) (resultIndex e))
        @ concat (map (\<lambda>event. final_texts (results event) (resultIndex event)) es))"
    using Cons.prems by (intro Cons.IH) (simp_all add: onresult_final_joined)
  then show ?case by simp
qed

lemma concat_finalizes_one:
  "\<forall>event \<in> set events. finalizes_one event \<Longrightarrow>
   concat (map (\<lambda>event. final_texts (results event) (resultIndex event)) events) =
     filter (\<lambda>t. t \<noteq> []) (map finalized_text events)"
  by (induction events) (simp_all add: final_texts_finalizes_one)

lemma session_engine:
  "finalTranscript (session True ops) = space_joined (concat (map appended_texts ops))"
  "segments_ok (concat (map appended_texts ops))"
  "interimTranscript (session True ops) = space_joined (foldl pending_texts [] ops)"
  "segments_ok (foldl pending_texts [] ops)"
  "recognitionRef (session True ops)"
proof -
  let ?s = "mount True initial_state"
  have r: "recognitionRef ?s" and f: "finalTranscript ?s = space_joined []"
    and i: "interimTranscript ?s = space_joined []"
    by (simp_all add: mount_def initial_state_def)
  from run_final_joined[OF r f, of ops]
  show "finalTranscript (session True ops) = space_joined (concat (map appended_texts ops))"
    "segments_ok (concat (map appended_texts ops))"
    by (simp_all add: session_def)
  from run_interim_joined[OF r i, of ops]
  show "interimTranscript (session True ops) = space_joined (foldl pending_texts [] ops)"
    "segments_ok (foldl pending_texts [] ops)"
    by (simp_all add: session_def)
  show "recognitionRef (session True ops)"
    by (simp add: session_def run_recognitionRef r)
qed

lemma session_no_engine:
  "finalTranscript (session False ops) = []"
  "interimTranscript (session False ops) = []"
  "\<not> isListening (session False ops)"
  "\<not> recognitionRef (session False ops)"
proof -
  let ?s = "mount False initial_state"
  have r: "\<not> recognitionRef ?s" by (simp add: mount_def initial_state_def)
  from run_no_engine[OF r, of ops]
  show "finalTranscript (session False ops) = []"
    "interimTranscript (session False ops) = []"
    "\<not> isListening (session False ops)"
    by (simp_all add: session_def mount_def initial_state_def)
  show "\<not> recognitionRef (session False ops)"
    by (simp add: session_def run_recognitionRef r)
qed

lemma session_append: "session supported (ops @ later) = run (session supported ops) later"
  by (simp add: session_def run_def)

lemma session_final_trimmed: "trim (finalTranscript (session supported ops)) = finalTranscript (session supported ops)"
proof (cases supported)
  case True
  then show ?thesis by (simp add: session_engine segments_ok_joined_trim)
next
  case False
  then show ?thesis by (simp add: session_no_engine trim_def)
qed

lemma session_interim_trimmed: "trim (interimTranscript (session supported ops)) = interimTranscript (session supported ops)"
proof (cases supported)
  case True
  then show ?thesis by (simp add: session_engine segments_ok_joined_trim)
next
  case False
  then show ?thesis by (simp add: session_no_engine trim_def)
qed

lemma double_space_free_append:
  "double_space_free a \<Longrightarrow> double_space_free b \<Longrightarrow>
   (a \<noteq> [] \<and> b \<noteq> [] \<longrightarrow> \<not> (last a = CHR '' '' \<and> hd b = CHR '' '')) \<Longrightarrow>
   double_space_free (a @ b)"
proof (induction a rule: double_space_free.induct)
  case 1
  then show ?case by simp
next
  case (2 x)
  then show ?case by (cases b) auto
next
  case (3 x y zs)
  then show ?case by auto
qed

lemma double_space_free_join2:
  assumes "double_space_free a" "double_space_free b" "a \<noteq> []" "b \<noteq> []" "trimmed a" "trimmed b"
  shows "double_space_free (a @ '' '' @ b)"
proof -
  have hb: "hd b \<noteq> CHR '' ''" and la: "last a \<noteq> CHR '' ''"
    using assms by (auto simp: trimmed_def)
  have sb: "double_space_free (CHR '' '' # b)"
    using assms(2,4) hb by (cases b) auto
  have "double_space_free (a @ (CHR '' '' # b))"
  proof (rule double_space_free_append)
    show "double_space_free a" by (rule assms(1))
    show "double_space_free (CHR '' '' # b)" by (rule sb)
    show "a \<noteq> [] \<and> CHR '' '' # b \<noteq> [] \<longrightarrow>
          \<not> (last a = CHR '' '' \<and> hd (CHR '' '' # b) = CHR '' '')"
      using la by simp
  qed
  then show ?thesis by simp
qed

lemma double_space_free_space_joined:
  "segments_ok ts \<Longrightarrow> \<forall>t \<in> set ts. double_space_free t \<Longrightarrow> double_space_free (space_joined ts)"
proof (induction ts rule: space_joined.induct)
  case 1 then show ?case by simp
next
  case (2 x) then show ?case by simp
next
  case (3 x y zs)
  then have ok: "segments_ok (y # zs)" by (simp add: segments_ok_def)
  then have t: "trimmed (space_joined (y # zs))" and n: "space_joined (y # zs) \<noteq> []"
    using segments_ok_joined_trim[OF ok] segments_ok_joined_Nil[OF ok]
    by (simp_all add: trim_fixed_iff)
  have d: "double_space_free (space_joined (y # zs))" using 3 ok by simp
  have "double_space_free (x @ '' '' @ space_joined (y # zs))"
    using 3(2,3) t n d by (intro double_space_free_join2) (auto simp: segments_ok_def trim_fixed_iff)
  then show ?case by simp
qed

section \<open>The claims\<close>

text \<open>
  Claim C1, as stated: after events that each finalize exactly one new result, from an
  empty transcript, \<open>finalTranscript\<close> is the space-joined list of all the finalized
  trimmed texts. It fails when a finalized text trims to the empty string: the second
  event below finalizes a blank result, the code skips it and keeps \<open>chest pain\<close>,
  while joining the two texts gives \<open>chest pain\<close> followed by a space.
\<close>

theorem one_final_per_event_counterexample:
  "finalTranscript initial_state = []
   \<and> finalizes_one \<lparr>resultIndex = 0, results = [spoken True ''chest pain'']\<rparr>
   \<and> finalizes_one \<lparr>resultIndex = 1, results = [spoken True ''chest pain'', spoken True '' '']\<rparr>
   \<and> finalTranscript
         (onresult \<lparr>resultIndex = 1, results = [spoken True ''chest pain'', spoken True '' '']\<rparr>
            (onresult \<lparr>resultIndex = 0, results = [spoken True ''chest pain'']\<rparr> initial_state))
       = ''chest pain''
   \<and> space_joined
         [finalized_text \<lparr>resultIndex = 0, results = [spoken True ''chest pain'']\<rparr>,
          finalized_text \<lparr>resultIndex = 1, results = [spoken True ''chest pain'', spoken True '' '']\<rparr>]
       = ''chest pain ''
   \<and> finalTranscript
         (onresult \<lparr>resultIndex = 1, results = [spoken True ''chest pain'', spoken True '' '']\<rparr>
            (onresult \<lparr>resultIndex = 0, results = [spoken True ''chest pain'']\<rparr> initial_state))
       \<noteq> space_joined
         [finalized_text \<lparr>resultIndex = 0, results = [spoken True ''chest pain'']\<rparr>,
          finalized_text \<lparr>resultIndex = 1, results = [spoken True ''chest pain'', spoken True '' '']\<rparr>]"
  by code_simp

text \<open>
  Claim C1, amended. For every sequence of events that each finalize exactly one new
  result, from any state whose final transcript is empty, \<open>finalTranscript\<close> after all the
  events is the space-joined list, in order, of those finalized trimmed texts that are not
  empty.
\<close>

theorem one_final_per_event:
  assumes "finalTranscript s = []" and "\<forall>event \<in> set events. finalizes_one event"
  shows "finalTranscript (foldl (\<lambda>s event. onresult event s) s events) =
           space_joined (filter (\<lambda>t. t \<noteq> []) (map finalized_text events))"
proof -
  have "finalTranscript s = space_joined []" "segments_ok []"
    using assms(1) by simp_all
  then have "finalTranscript (foldl (\<lambda>s event. onresult event s) s events) =
     space_joined ([] @ concat (map (\<lambda>event. final_texts (results event) (resultIndex event)) events))"
    by (rule fold_onresult_final_joined)
  with assms(2) show ?thesis by (simp add: concat_finalizes_one)
qed

text \<open>Three events, the second finalizing a blank result.\<close>

theorem one_final_per_event_witness:
  "finalTranscript
     (foldl (\<lambda>s event. onresult event s) initial_state
        [\<lparr>resultIndex = 0, results = [spoken True ''chest pain'']\<rparr>,
         \<lparr>resultIndex = 1, results = [spoken True ''chest pain'', spoken True '' '']\<rparr>,
         \<lparr>resultIndex = 2, results = [spoken True ''chest pain'', spoken True '' '', spoken True '' for two days'']\<rparr>])
   = ''chest pain for two days''"
proof -
  let ?es = "[\<lparr>resultIndex = 0, results = [spoken True ''chest pain'']\<rparr>,
         \<lparr>resultIndex = 1, results = [spoken True ''chest pain'', spoken True '' '']\<rparr>,
         \<lparr>resultIndex = 2, results = [spoken True ''chest pain'', spoken True '' '', spoken True '' for two days'']\<rparr>]"
  have h1: "finalTranscript initial_state = []" by (simp add: initial_state_def)
  have h2: "\<forall>event \<in> set ?es. finalizes_one event"
    by (simp add: finalizes_one_def result_is_final_def spoken_def)
  have v: "space_joined (filter (\<lambda>t. t \<noteq> []) (map finalized_text ?es)) = ''chest pain for two days''"
    by code_simp
  from one_final_per_event[OF h1 h2] v show ?thesis by simp
qed

text \<open>
  Claim C2. For every state and every event with \<open>resultIndex = 0\<close> whose results are all
  non-final, \<open>onresult\<close> leaves \<open>finalTranscript\<close> as it was and sets
  \<open>interimTranscript\<close> to the space-joined trimmed texts of the non-empty first
  alternatives, in scan order.
\<close>

theorem interim_only_event:
  assumes "resultIndex event = 0"
    and "\<forall>r. Some r \<in> set (results event) \<longrightarrow> \<not> isFinal r"
  shows "finalTranscript (onresult event s) = finalTranscript s
       \<and> interimTranscript (onresult event s) =
           space_joined (filter (\<lambda>t. t \<noteq> []) (map result_text (results event)))"
proof -
  have nf: "\<forall>r \<in> set (results event). \<not> result_is_final r"
    using assms(2) by (auto simp: result_is_final_def split: option.splits)
  then have "filter result_is_final (results event) = []"
    by (simp add: filter_empty_conv)
  then have f: "final_texts (results event) (resultIndex event) = []"
    using assms(1) by (simp add: final_texts_def)
  from nf have "filter (\<lambda>r. \<not> result_is_final r) (results event) = results event"
    by (simp add: filter_id_conv)
  then have i: "interim_texts (results event) (resultIndex event) =
      filter (\<lambda>t. t \<noteq> []) (map result_text (results event))"
    using assms(1) by (simp add: interim_texts_def)
  show ?thesis by (simp add: onresult_final onresult_interim f i)
qed

text \<open>
  An interim-only event with a missing entry and a blank text, on a state that already
  holds a final transcript.
\<close>

theorem interim_only_event_witness:
  "resultIndex \<lparr>resultIndex = 0, results = [spoken False '' for two'', None, spoken False ''  '', spoken False ''days '']\<rparr> = 0
   \<and> finalTranscript (onresult \<lparr>resultIndex = 0, results = [spoken False '' for two'', None, spoken False ''  '', spoken False ''days '']\<rparr>
        (initial_state\<lparr>finalTranscript := ''chest pain''\<rparr>)) = ''chest pain''
   \<and> interimTranscript (onresult \<lparr>resultIndex = 0, results = [spoken False '' for two'', None, spoken False ''  '', spoken False ''days '']\<rparr>
        (initial_state\<lparr>finalTranscript := ''chest pain''\<rparr>)) = ''for two days''"
proof -
  let ?e = "\<lparr>resultIndex = 0, results = [spoken False '' for two'', None, spoken False ''  '', spoken False ''days '']\<rparr>"
  have h1: "resultIndex ?e = 0" by simp
  have h2: "\<forall>r. Some r \<in> set (results ?e) \<longrightarrow> \<not> isFinal r"
    by (auto simp: spoken_def)
  have v: "space_joined (filter (\<lambda>t. t \<noteq> []) (map result_text (results ?e))) = ''for two days''"
    by code_simp
  from interim_only_event[OF h1 h2, of "initial_state\<lparr>finalTranscript := ''chest pain''\<rparr>"] v h1 h2
  show ?thesis by (simp add: initial_state_def)
qed

text \<open>
  Claim C3. Results whose text trims to the empty string contribute nothing: the segments
  of a list are the segments of the list with those results removed, and each segment is
  the space-joined list of the non-empty texts only. When the event's final segment is not
  empty, the new final transcript is the previous one, a space and the segment, trimmed,
  if the previous one is not empty, and the segment itself otherwise.
\<close>

theorem empty_text_contributes_nothing:
  "mapTranscriptSegments list startIndex =
     mapTranscriptSegments (filter (\<lambda>r. result_text r \<noteq> []) (drop (nat startIndex) list)) 0
   \<and> final (mapTranscriptSegments list startIndex) = space_joined (final_texts list startIndex)
   \<and> interim (mapTranscriptSegments list startIndex) = space_joined (interim_texts list startIndex)
   \<and> finalTranscript (onresult event s) =
       (if final (mapTranscriptSegments (results event) (resultIndex event)) = []
        then finalTranscript s
        else if finalTranscript s \<noteq> []
        then trim (finalTranscript s @ '' '' @
                   final (mapTranscriptSegments (results event) (resultIndex event)))
        else final (mapTranscriptSegments (results event) (resultIndex event)))"
proof -
  have "mapTranscriptSegments list startIndex =
     mapTranscriptSegments (filter (\<lambda>r. result_text r \<noteq> []) (drop (nat startIndex) list)) 0"
    by (simp add: mapTranscriptSegments_fold foldl_add_result_filter)
  moreover have "finalTranscript (onresult event s) =
       (if final (mapTranscriptSegments (results event) (resultIndex event)) = []
        then finalTranscript s
        else if finalTranscript s \<noteq> []
        then trim (finalTranscript s @ '' '' @
                   final (mapTranscriptSegments (results event) (resultIndex event)))
        else final (mapTranscriptSegments (results event) (resultIndex event)))"
    by (simp add: onresult_def Let_def)
  ultimately show ?thesis
    using mapTranscriptSegments_final[of list startIndex]
      mapTranscriptSegments_interim[of list startIndex]
    by blast
qed

text \<open>
  Three empty-text entries and a stale one around a final and an interim result, on a
  state with a final transcript.
\<close>

theorem empty_text_contributes_nothing_witness:
  "mapTranscriptSegments [spoken True ''stale'', spoken True ''a '', spoken True '' '', None, spoken False '' b''] 1
     = mapTranscriptSegments [spoken True ''a '', spoken False '' b''] 0
   \<and> mapTranscriptSegments [spoken True ''stale'', spoken True ''a '', spoken True '' '', None, spoken False '' b''] 1
     = \<lparr>final = ''a'', interim = ''b''\<rparr>
   \<and> finalTranscript
        (onresult \<lparr>resultIndex = 1, results = [spoken True ''stale'', spoken True ''a '', spoken True '' '', None, spoken False '' b'']\<rparr>
           (initial_state\<lparr>finalTranscript := ''x''\<rparr>)) = ''x a''"
proof -
  let ?l = "[spoken True ''stale'', spoken True ''a '', spoken True '' '', None, spoken False '' b'']"
  let ?e = "\<lparr>resultIndex = 1, results = ?l\<rparr>"
  let ?s = "initial_state\<lparr>finalTranscript := ''x''\<rparr>"
  have f: "filter (\<lambda>r. result_text r \<noteq> []) (drop (nat 1) ?l) = [spoken True ''a '', spoken False '' b'']"
    by code_simp
  have v: "mapTranscriptSegments [spoken True ''a '', spoken False '' b''] 0 = \<lparr>final = ''a'', interim = ''b''\<rparr>"
    by code_simp
  have t: "trim ''x a'' = ''x a''" by code_simp
  from empty_text_contributes_nothing[of ?l 1 ?e ?s] f v t show ?thesis
    by (simp add: initial_state_def)
qed

text \<open>
  Claim C4. In every state a session reaches, the final transcript is a prefix of the final
  transcript after a further result event, and of the final transcript after any further
  sequence of operations: text once appended is never removed or altered.
\<close>

theorem final_transcript_append_only:
  "prefix (finalTranscript (session supported ops))
          (finalTranscript (onresult event (session supported ops)))
   \<and> prefix (finalTranscript (session supported ops))
          (finalTranscript (session supported (ops @ later)))"
proof (cases supported)
  case True
  have "finalTranscript (onresult event (session True ops)) =
      space_joined (concat (map appended_texts ops) @ final_texts (results event) (resultIndex event))"
    by (rule onresult_final_joined) (simp_all add: session_engine)
  then show ?thesis using True
    by (simp add: session_engine(1) prefix_space_joined)
next
  case False
  then show ?thesis by (simp add: session_no_engine)
qed

text \<open>A session that has one final text, a further event and further operations.\<close>

theorem final_transcript_append_only_witness:
  "prefix (finalTranscript (session True [Start Started, Result \<lparr>resultIndex = 0, results = [spoken True ''chest pain'']\<rparr>]))
     (finalTranscript (onresult \<lparr>resultIndex = 1, results = [spoken True ''chest pain'', spoken True ''for two days'']\<rparr>
        (session True [Start Started, Result \<lparr>resultIndex = 0, results = [spoken True ''chest pain'']\<rparr>])))
   \<and> finalTranscript (session True [Start Started, Result \<lparr>resultIndex = 0, results = [spoken True ''chest pain'']\<rparr>])
       = ''chest pain''
   \<and> finalTranscript (session True ([Start Started, Result \<lparr>resultIndex = 0, results = [spoken True ''chest pain'']\<rparr>]
         @ [Stop, Start Started, Result \<lparr>resultIndex = 0, results = [spoken True ''for two days'']\<rparr>, End]))
       = ''chest pain for two days''
   \<and> prefix ''chest pain'' ''chest pain for two days''"
proof -
  let ?ops = "[Start Started, Result \<lparr>resultIndex = 0, results = [spoken True ''chest pain'']\<rparr>]"
  let ?later = "[Stop, Start Started, Result \<lparr>resultIndex = 0, results = [spoken True ''for two days'']\<rparr>, End]"
  let ?e = "\<lparr>resultIndex = 1, results = [spoken True ''chest pain'', spoken True ''for two days'']\<rparr>"
  have a: "finalTranscript (session True ?ops) = ''chest pain''" by code_simp
  have b: "finalTranscript (session True (?ops @ ?later)) = ''chest pain for two days''" by code_simp
  from final_transcript_append_only[of True ?ops ?e ?later] a b show ?thesis
    by simp
qed

text \<open>
  Claim C5. The interim transcript after an event is the same from any two prior states:
  it is the interim segment computed from the event alone, and it is empty when every
  result in range is final.
\<close>

theorem interim_has_no_memory:
  "interimTranscript (onresult event s1) = interimTranscript (onresult event s2)
   \<and> interimTranscript (onresult event s1) =
       interim (mapTranscriptSegments (results event) (resultIndex event))
   \<and> ((\<forall>r \<in> set (drop (nat (resultIndex event)) (results event)). result_is_final r) \<longrightarrow>
        interimTranscript (onresult event s1) = [])"
proof -
  have "interim_texts (results event) (resultIndex event) = []"
    if "\<forall>r \<in> set (drop (nat (resultIndex event)) (results event)). result_is_final r"
    using that by (simp add: interim_texts_def filter_empty_conv)
  then show ?thesis
    by (auto simp: onresult_interim mapTranscriptSegments_interim)
qed

text \<open>A final-only event on two states with different interim transcripts.\<close>

theorem interim_has_no_memory_witness:
  "interimTranscript (onresult \<lparr>resultIndex = 0, results = [spoken True ''chest pain'']\<rparr>
       (initial_state\<lparr>interimTranscript := ''chest''\<rparr>))
   = interimTranscript (onresult \<lparr>resultIndex = 0, results = [spoken True ''chest pain'']\<rparr> initial_state)
   \<and> interimTranscript (onresult \<lparr>resultIndex = 0, results = [spoken True ''chest pain'']\<rparr>
       (initial_state\<lparr>interimTranscript := ''chest''\<rparr>)) = []"
proof -
  let ?e = "\<lparr>resultIndex = 0, results = [spoken True ''chest pain'']\<rparr>"
  have h: "\<forall>r \<in> set (drop (nat (resultIndex ?e)) (results ?e)). result_is_final r"
    by (simp add: result_is_final_def spoken_def)
  note m = interim_has_no_memory[of ?e "initial_state\<lparr>interimTranscript := ''chest''\<rparr>" initial_state]
  from m h have "interimTranscript (onresult ?e (initial_state\<lparr>interimTranscript := ''chest''\<rparr>)) = []"
    by blast
  moreover from m have "interimTranscript (onresult ?e (initial_state\<lparr>interimTranscript := ''chest''\<rparr>))
      = interimTranscript (onresult ?e initial_state)"
    by blast
  ultimately show ?thesis by (intro conjI)
qed

text \<open>
  Claim C6. The engine's end event, on every state, clears \<open>interimTranscript\<close>, leaves
  \<open>finalTranscript\<close> untouched and sets \<open>isListening\<close> to false. The caller's
  \<open>stopListening\<close> does the same on every state that holds an engine, and on every
  state a session reaches, with or without an engine.
\<close>

theorem stop_and_end_clear_interim:
  "(interimTranscript (onend s) = [] \<and> finalTranscript (onend s) = finalTranscript s
      \<and> \<not> isListening (onend s))
   \<and> (recognitionRef s \<longrightarrow>
        interimTranscript (stopListening s) = [] \<and> finalTranscript (stopListening s) = finalTranscript s
        \<and> \<not> isListening (stopListening s))
   \<and> (interimTranscript (stopListening (session supported ops)) = []
      \<and> finalTranscript (stopListening (session supported ops)) = finalTranscript (session supported ops)
      \<and> \<not> isListening (stopListening (session supported ops)))"
  by (cases supported) (simp_all add: onend_def stopListening_def session_engine session_no_engine)

text \<open>A listening session with both transcripts filled.\<close>

theorem stop_and_end_clear_interim_witness:
  "interimTranscript (session True [Start Started, Result \<lparr>resultIndex = 0, results = [spoken True ''chest pain'', spoken False ''for two'']\<rparr>]) = ''for two''
   \<and> isListening (session True [Start Started, Result \<lparr>resultIndex = 0, results = [spoken True ''chest pain'', spoken False ''for two'']\<rparr>])
   \<and> interimTranscript (onend (session True [Start Started, Result \<lparr>resultIndex = 0, results = [spoken True ''chest pain'', spoken False ''for two'']\<rparr>])) = []
   \<and> finalTranscript (onend (session True [Start Started, Result \<lparr>resultIndex = 0, results = [spoken True ''chest pain'', spoken False ''for two'']\<rparr>])) = ''chest pain''
   \<and> interimTranscript (stopListening (session True [Start Started, Result \<lparr>resultIndex = 0, results = [spoken True ''chest pain'', spoken False ''for two'']\<rparr>])) = []
   \<and> finalTranscript (stopListening (session True [Start Started, Result \<lparr>resultIndex = 0, results = [spoken True ''chest pain'', spoken False ''for two'']\<rparr>])) = ''chest pain''
   \<and> \<not> isListening (stopListening (session True [Start Started, Result \<lparr>resultIndex = 0, results = [spoken True ''chest pain'', spoken False ''for two'']\<rparr>]))"
proof -
  let ?ops = "[Start Started, Result \<lparr>resultIndex = 0, results = [spoken True ''chest pain'', spoken False ''for two'']\<rparr>]"
  have a: "interimTranscript (session True ?ops) = ''for two''" by code_simp
  have b: "isListening (session True ?ops)" by code_simp
  have c: "finalTranscript (session True ?ops) = ''chest pain''" by code_simp
  from stop_and_end_clear_interim[of "session True ?ops" True ?ops] a b c show ?thesis
    by simp
qed

text \<open>
  Claim C7. For every state (a listening one included) and every engine error event,
  \<open>onerror\<close> leaves \<open>finalTranscript\<close> and \<open>interimTranscript\<close> unchanged, sets
  \<open>isListening\<close> to false and stores an error message that is present and not empty.
\<close>

theorem engine_error_keeps_transcripts:
  "finalTranscript (onerror event s) = finalTranscript s
   \<and> interimTranscript (onerror event s) = interimTranscript s
   \<and> \<not> isListening (onerror event s)
   \<and> (\<exists>message. error (onerror event s) = Some message \<and> message \<noteq> [])"
  by (simp add: onerror_def Let_def)

text \<open>An engine error in a listening session.\<close>

theorem engine_error_keeps_transcripts_witness:
  "finalTranscript (onerror \<lparr>event_error = ''network''\<rparr>
       (session True [Start Started, Result \<lparr>resultIndex = 0, results = [spoken True ''chest pain'', spoken False ''for two'']\<rparr>])) = ''chest pain''
   \<and> interimTranscript (onerror \<lparr>event_error = ''network''\<rparr>
       (session True [Start Started, Result \<lparr>resultIndex = 0, results = [spoken True ''chest pain'', spoken False ''for two'']\<rparr>])) = ''for two''
   \<and> \<not> isListening (onerror \<lparr>event_error = ''network''\<rparr>
       (session True [Start Started, Result \<lparr>resultIndex = 0, results = [spoken True ''chest pain'', spoken False ''for two'']\<rparr>]))
   \<and> error (onerror \<lparr>event_error = ''network''\<rparr>
       (session True [Start Started, Result \<lparr>resultIndex = 0, results = [spoken True ''chest pain'', spoken False ''for two'']\<rparr>]))
      = Some ''Speech recognition error: network''"
proof -
  let ?s = "session True [Start Started, Result \<lparr>resultIndex = 0, results = [spoken True ''chest pain'', spoken False ''for two'']\<rparr>]"
  have a: "interimTranscript ?s = ''for two''" by code_simp
  have c: "finalTranscript ?s = ''chest pain''" by code_simp
  have e: "error (onerror \<lparr>event_error = ''network''\<rparr> ?s) = Some ''Speech recognition error: network''"
    by (simp add: onerror_def)
  from engine_error_keeps_transcripts[of "\<lparr>event_error = ''network''\<rparr>" ?s] a c e show ?thesis
    by simp
qed

text \<open>
  Claim C8. \<open>onresult\<close> and \<open>mapTranscriptSegments\<close> return a value for every list and
  every \<open>startIndex \<ge> 0\<close>: the loop ends (its termination is proved with the
  definition) and nothing in it raises. A missing result, a result without a first
  alternative and an alternative without text leave the accumulators as they are, and
  the outcome is that of the list without those entries.
\<close>

theorem malformed_results_are_skipped:
  assumes "0 \<le> startIndex"
  shows "(startIndex \<le> i \<and> i < int (length list) \<and> malformed (list ! nat i) \<longrightarrow>
            loop_body list i acc = acc)
       \<and> mapTranscriptSegments list startIndex =
           mapTranscriptSegments (filter (\<lambda>r. \<not> malformed r) (drop (nat startIndex) list)) 0
       \<and> onresult \<lparr>resultIndex = startIndex, results = list\<rparr> s =
           onresult \<lparr>resultIndex = 0,
                     results = filter (\<lambda>r. \<not> malformed r) (drop (nat startIndex) list)\<rparr> s"
proof -
  have m: "mapTranscriptSegments list startIndex =
           mapTranscriptSegments (filter (\<lambda>r. \<not> malformed r) (drop (nat startIndex) list)) 0"
    by (simp add: mapTranscriptSegments_fold foldl_add_result_wellformed)
  have "loop_body list i acc = acc"
    if "startIndex \<le> i" "i < int (length list)" "malformed (list ! nat i)"
    using that assms by (simp add: loop_body_in_range add_result_def malformed_text)
  with m show ?thesis by (simp add: onresult_def)
qed

text \<open>A list with each of the three malformed shapes between two spoken results.\<close>

theorem malformed_results_are_skipped_witness:
  "loop_body [spoken True ''a'', None, Some \<lparr>isFinal = True, alternatives = []\<rparr>,
              Some \<lparr>isFinal = False, alternatives = [Some \<lparr>transcript = None\<rparr>]\<rparr>, spoken False ''b''] 2
             \<lparr>final = ''a'', interim = []\<rparr> = \<lparr>final = ''a'', interim = []\<rparr>
   \<and> mapTranscriptSegments [spoken True ''a'', None, Some \<lparr>isFinal = True, alternatives = []\<rparr>,
              Some \<lparr>isFinal = False, alternatives = [Some \<lparr>transcript = None\<rparr>]\<rparr>, spoken False ''b''] 0
       = \<lparr>final = ''a'', interim = ''b''\<rparr>"
proof -
  let ?l = "[spoken True ''a'', None, Some \<lparr>isFinal = True, alternatives = []\<rparr>,
              Some \<lparr>isFinal = False, alternatives = [Some \<lparr>transcript = None\<rparr>]\<rparr>, spoken False ''b'']"
  have h: "(0::int) \<le> 0" by simp
  have m: "(0::int) \<le> 2 \<and> 2 < int (length ?l) \<and> malformed (?l ! nat 2)"
    by (simp add: malformed_def)
  have f: "filter (\<lambda>r. \<not> malformed r) (drop (nat 0) ?l) = [spoken True ''a'', spoken False ''b'']"
    by (simp add: malformed_def spoken_def)
  have v: "mapTranscriptSegments [spoken True ''a'', spoken False ''b''] 0 = \<lparr>final = ''a'', interim = ''b''\<rparr>"
    by code_simp
  from malformed_results_are_skipped[OF h, of 2 ?l "\<lparr>final = ''a'', interim = []\<rparr>"] m f v
  show ?thesis by simp
qed

text \<open>
  Claim C9. In every state a session reaches, \<open>finalTranscript\<close> and
  \<open>interimTranscript\<close> have no whitespace at either end; the final transcript is the
  space-joined list of the texts the result events appended, the interim transcript the
  space-joined list of the texts of the latest event, and each of those texts is non-empty
  and trimmed. So the joins put exactly one space between two segments: a transcript has
  two spaces in a row only where a segment has.
\<close>

theorem transcripts_trimmed_single_spaced:
  "trim (finalTranscript (session supported ops)) = finalTranscript (session supported ops)
   \<and> trim (interimTranscript (session supported ops)) = interimTranscript (session supported ops)
   \<and> finalTranscript (session supported ops) =
       space_joined (if supported then concat (map appended_texts ops) else [])
   \<and> interimTranscript (session supported ops) =
       space_joined (if supported then foldl pending_texts [] ops else [])
   \<and> segments_ok (concat (map appended_texts ops))
   \<and> segments_ok (foldl pending_texts [] ops)
   \<and> ((\<forall>t \<in> set (concat (map appended_texts ops)). double_space_free t) \<longrightarrow>
        double_space_free (finalTranscript (session supported ops)))
   \<and> ((\<forall>t \<in> set (foldl pending_texts [] ops). double_space_free t) \<longrightarrow>
        double_space_free (interimTranscript (session supported ops)))"
proof (cases supported)
  case True
  then show ?thesis
    by (simp add: session_engine segments_ok_joined_trim double_space_free_space_joined)
next
  case False
  then show ?thesis
    by (simp add: session_engine session_no_engine trim_def)
qed

text \<open>
  A session with a text that holds two spaces, a blank interim text and a stale entry.
\<close>

theorem transcripts_trimmed_single_spaced_witness:
  "finalTranscript (session True
      [Start Started,
       Result \<lparr>resultIndex = 0, results = [spoken True '' chest  pain '', spoken False ''for two'']\<rparr>,
       Result \<lparr>resultIndex = 1, results = [spoken True ''chest pain'', spoken True ''for two days'', spoken False ''  '', spoken False ''and'']\<rparr>])
     = ''chest  pain for two days''
   \<and> interimTranscript (session True
      [Start Started,
       Result \<lparr>resultIndex = 0, results = [spoken True '' chest  pain '', spoken False ''for two'']\<rparr>,
       Result \<lparr>resultIndex = 1, results = [spoken True ''chest pain'', spoken True ''for two days'', spoken False ''  '', spoken False ''and'']\<rparr>])
     = ''and''"
proof -
  let ?ops = "[Start Started,
       Result \<lparr>resultIndex = 0, results = [spoken True '' chest  pain '', spoken False ''for two'']\<rparr>,
       Result \<lparr>resultIndex = 1, results = [spoken True ''chest pain'', spoken True ''for two days'', spoken False ''  '', spoken False ''and'']\<rparr>]"
  have a: "space_joined (concat (map appended_texts ?ops)) = ''chest  pain for two days''"
    by code_simp
  have p: "space_joined (foldl pending_texts [] ?ops) = ''and''"
    by code_simp
  from transcripts_trimmed_single_spaced[of True ?ops] a p show ?thesis
    by simp
qed

text \<open>
  Claim C10. For every transcript that is empty or trims to the empty string, and whatever
  the environment holds (an API key or none), \<open>extractClinicalData\<close> fulfils its promise
  with a \<open>ClinicalData\<close> whose five fields are empty lists, raises nothing and sends
  nothing to the chat API.
\<close>

theorem blank_transcript_gives_empty_data:
  assumes "input = [] \<or> trim input = []"
  shows "extractClinicalData p input =
           (Inr \<lparr>symptoms = [], history = [], assessment = [], medications = [], plan = []\<rparr>, [])"
  using assms by (simp add: extractClinicalData_def)

text \<open>
  A transcript of a space and a line feed, with no API key configured; with the same
  environment a transcript that has text is refused for the missing key.
\<close>

theorem blank_transcript_gives_empty_data_witness:
  "extractClinicalData
     \<lparr>cohereKeyFromEnv = None, chat = (\<lambda>payload. RejectedWithOther),
      json_parse = (\<lambda>text. None :: unit option), get_property = (\<lambda>value name. Inr None),
      truthy = (\<lambda>value. False), array_items = (\<lambda>value. None),
      template_string = (\<lambda>value. [])\<rparr>
     [CHR 0x20, CHR 0x0A]
   = (Inr \<lparr>symptoms = [], history = [], assessment = [], medications = [], plan = []\<rparr>, [])
   \<and> extractClinicalData
     \<lparr>cohereKeyFromEnv = None, chat = (\<lambda>payload. RejectedWithOther),
      json_parse = (\<lambda>text. None :: unit option), get_property = (\<lambda>value name. Inr None),
      truthy = (\<lambda>value. False), array_items = (\<lambda>value. None),
      template_string = (\<lambda>value. [])\<rparr>
     ''chest pain''
   = (Inl (Error ''Missing Cohere API key (set COHERE_API_KEY)''), [])"
proof -
  let ?p = "\<lparr>cohereKeyFromEnv = None, chat = (\<lambda>payload. RejectedWithOther),
      json_parse = (\<lambda>text. None :: unit option), get_property = (\<lambda>value name. Inr None),
      truthy = (\<lambda>value. False), array_items = (\<lambda>value. None),
      template_string = (\<lambda>value. [])\<rparr>"
  have h: "[CHR 0x20, CHR 0x0A] = [] \<or> trim [CHR 0x20, CHR 0x0A] = []"
    by code_simp
  have a: "extractClinicalData ?p [CHR 0x20, CHR 0x0A]
      = (Inr \<lparr>symptoms = [], history = [], assessment = [], medications = [], plan = []\<rparr>, [])"
    using h by (rule blank_transcript_gives_empty_data)
  have t: "trim ''chest pain'' = ''chest pain''" by code_simp
  have b: "extractClinicalData ?p ''chest pain''
      = (Inl (Error ''Missing Cohere API key (set COHERE_API_KEY)''), [])"
    by (simp add: extractClinicalData_def COHERE_API_KEY_def t)
  from a b show ?thesis by (intro conjI)
qed

end
